theory Spec2Isabelle
  imports Main "HOL-Library.Word" "HOL-Library.AList"
begin

unbundle bit_operations_syntax

section \<open>The Header Inspector (tools/simple\_dump.py)\<close>

text \<open>
  The script has one function, \<open>parse_ddd(filepath)\<close>, and a command-line entry point.
  Everything else it calls belongs to the Python runtime (\<open>os.path\<close>, \<open>open\<close>,
  \<open>bytes.hex\<close>, \<open>str\<close> of an exception, \<open>json.dumps\<close>, \<open>print\<close>); those parts are
  modelled here after CPython on a POSIX system, as far as the script uses them.
\<close>

subsection \<open>Values\<close>

text \<open>
  A Python \<open>str\<close> is a \<open>string\<close>: one \<open>char\<close> stands for the code point of the same
  number, so the model covers text over U+0000 .. U+00FF. A \<open>bytes\<close> object is a list
  of 8-bit words. A dictionary literal with distinct keys is an association list in
  insertion order, which is also the order \<open>json.dumps\<close> writes.
\<close>

type_synonym byte = "8 word"

type_synonym path = string

datatype py_value = PyStr string | PyInt int

type_synonym py_dict = "(string \<times> py_value) list"

definition dquote :: char where
  "dquote = CHR 0x22"

definition squote :: char where
  "squote = CHR 0x27"

definition backslash :: char where
  "backslash = CHR 0x5C"

definition newline :: char where
  "newline = CHR 0x0A"

subsection \<open>Numbers as text\<close>

definition hexdigits :: string where
  "hexdigits = ''0123456789abcdef''"

text \<open>
  \<open>str(n)\<close> of a non-negative integer: its decimal digits, which are the first ten
  characters of \<open>hexdigits\<close>.
\<close>

fun str_nat :: "nat \<Rightarrow> string" where
  "str_nat n =
     (if n < 10 then [hexdigits ! n]
      else str_nat (n div 10) @ [hexdigits ! (n mod 10)])"

declare str_nat.simps [simp del]

definition str_int :: "int \<Rightarrow> string" where
  "str_int i = (if i < 0 then CHR ''-'' # str_nat (nat (- i)) else str_nat (nat i))"

text \<open>The formats \<open>%02x\<close> and \<open>{0:04x}\<close> of a code point below 0x10000.\<close>

definition hex2 :: "nat \<Rightarrow> string" where
  "hex2 n = [hexdigits ! (n div 16 mod 16), hexdigits ! (n mod 16)]"

definition hex4 :: "nat \<Rightarrow> string" where
  "hex4 n = hex2 (n div 256) @ hex2 n"

subsection \<open>bytes.hex\<close>

text \<open>
  CPython writes, for every byte \<open>c\<close>, the digit of \<open>c >> 4\<close> and the digit of
  \<open>c & 0x0f\<close>, both taken from \<open>"0123456789abcdef"\<close>.
\<close>

definition hex_of_byte :: "byte \<Rightarrow> string" where
  "hex_of_byte c = [hexdigits ! unat (drop_bit 4 c), hexdigits ! unat (c AND 0x0f)]"

definition bytes_hex :: "byte list \<Rightarrow> string" where
  "bytes_hex bs = concat (map hex_of_byte bs)"

text \<open>
  The decoding the specification's round trip refers to: pairs of hexadecimal digits,
  most significant first, as \<open>bytes.fromhex\<close> reads a string without white space.
\<close>

definition hex_value :: "char \<Rightarrow> nat option" where
  "hex_value c =
     (let n = of_char c :: nat in
      if 48 \<le> n \<and> n \<le> 57 then Some (n - 48)
      else if 97 \<le> n \<and> n \<le> 102 then Some (n - 87)
      else if 65 \<le> n \<and> n \<le> 70 then Some (n - 55)
      else None)"



subsection \<open>os.path.basename\<close>

text \<open>
  \<open>posixpath.basename\<close>: \<open>i = p.rfind('/') + 1; return p[i:]\<close>, the text after the
  last slash (all of \<open>p\<close> when it has none).
\<close>

definition os_path_basename :: "path \<Rightarrow> string" where
  "os_path_basename p = rev (takeWhile (\<lambda>c. c \<noteq> CHR ''/'') (rev p))"

subsection \<open>repr of a str\<close>

text \<open>
  The message of an \<open>OSError\<close> shows the file name through \<open>repr\<close>. In the range of
  this model the code points that are not printable are the controls below U+0020,
  U+007F .. U+00A0 and the soft hyphen U+00AD.
\<close>

definition py_printable :: "char \<Rightarrow> bool" where
  "py_printable c =
     (let n = of_char c :: nat in (0x20 \<le> n \<and> n < 0x7f) \<or> (0xa1 \<le> n \<and> n \<noteq> 0xad))"

definition repr_char :: "char \<Rightarrow> char \<Rightarrow> string" where
  "repr_char quote c =
     (if c = quote \<or> c = backslash then [backslash, c]
      else if c = CHR 0x09 then [backslash, CHR ''t'']
      else if c = CHR 0x0A then [backslash, CHR ''n'']
      else if c = CHR 0x0D then [backslash, CHR ''r'']
      else if py_printable c then [c]
      else [backslash, CHR ''x''] @ hex2 (of_char c))"

definition py_repr :: "string \<Rightarrow> string" where
  "py_repr s =
     (let quote = (if squote \<in> set s \<and> dquote \<notin> set s then dquote else squote)
      in quote # concat (map (repr_char quote) s) @ [quote])"

subsection \<open>Exceptions\<close>

text \<open>
  The operating system reports a failure as an errno; Python raises it as an
  \<open>OSError\<close> (or the subclass of that errno: \<open>FileNotFoundError\<close>,
  \<open>PermissionError\<close>, \<open>IsADirectoryError\<close>, \<open>NotADirectoryError\<close>), whose \<open>str\<close> is
  \<open>[Errno n] text\<close>, followed by \<open>: \<close> and the \<open>repr\<close> of the file name when the
  call had one. A path with a NUL character and a read on a closed file raise
  \<open>ValueError\<close>. All of them are subclasses of \<open>Exception\<close>.
\<close>

datatype errno = ENOENT | EIO | EACCES | ENOTDIR | EISDIR

fun errno_code :: "errno \<Rightarrow> nat" where
  "errno_code ENOENT = 2"
| "errno_code EIO = 5"
| "errno_code EACCES = 13"
| "errno_code ENOTDIR = 20"
| "errno_code EISDIR = 21"

fun strerror :: "errno \<Rightarrow> string" where
  "strerror ENOENT = ''No such file or directory''"
| "strerror EIO = ''Input/output error''"
| "strerror EACCES = ''Permission denied''"
| "strerror ENOTDIR = ''Not a directory''"
| "strerror EISDIR = ''Is a directory''"

datatype py_exception = OSError errno "path option" | ValueError string

fun exception_str :: "py_exception \<Rightarrow> string" where
  "exception_str (OSError e None) =
     ''[Errno '' @ str_nat (errno_code e) @ ''] '' @ strerror e"
| "exception_str (OSError e (Some p)) =
     ''[Errno '' @ str_nat (errno_code e) @ ''] '' @ strerror e @ '': '' @ py_repr p"
| "exception_str (ValueError msg) = msg"

subsection \<open>The file system and the open files\<close>

text \<open>
  What the script can observe of its environment. \<open>lookup\<close> resolves a path: to the
  errno with which \<open>stat\<close> fails (\<open>ENOENT\<close> for a path that does not exist), or to the
  node found. A regular file has the size \<open>stat\<close> reports for it (\<open>st_size\<close>), the
  bytes a reader gets from it, the errno with which opening it for reading fails (if
  any) and the errno with which reading it fails (if any); a directory has the size
  \<open>stat\<close> reports for it. The reported size and the bytes are separate: the script
  obtains them by separate calls, and they agree for a file stored on a disk but not
  for one whose content the kernel produces on reading (\<open>/proc/version\<close> is a regular
  file of reported size 0 that yields text). \<open>handles\<close> is the table of the file
  objects that are open: the bytes of the file, its read fault and the position.
\<close>

datatype node =
    Regular nat "byte list" "errno option" "errno option"
  | Directory nat

record open_file =
  stream :: "byte list"
  fault :: "errno option"
  pos :: nat

record world =
  lookup :: "path \<Rightarrow> errno + node"
  handles :: "(nat \<times> open_file) list"

definition resolve :: "world \<Rightarrow> path \<Rightarrow> py_exception + node" where
  "resolve w p =
     (if CHR 0x00 \<in> set p then Inl (ValueError ''embedded null byte'')
      else case lookup w p of
             Inl e \<Rightarrow> Inl (OSError e (Some p))
           | Inr n \<Rightarrow> Inr n)"

text \<open>\<open>os.path.getsize(p)\<close> is \<open>os.stat(p).st_size\<close>.\<close>

definition os_path_getsize :: "world \<Rightarrow> path \<Rightarrow> py_exception + nat" where
  "os_path_getsize w p =
     (case resolve w p of
        Inl e \<Rightarrow> Inl e
      | Inr (Regular st_size c oe re) \<Rightarrow> Inr st_size
      | Inr (Directory n) \<Rightarrow> Inr n)"

definition fresh_handle :: "(nat \<times> open_file) list \<Rightarrow> nat" where
  "fresh_handle hs = Suc (Max (set (0 # map fst hs)))"

text \<open>\<open>open(p, 'rb')\<close>: a new file object at position 0.\<close>

definition open_rb :: "world \<Rightarrow> path \<Rightarrow> py_exception + (nat \<times> world)" where
  "open_rb w p =
     (case resolve w p of
        Inl e \<Rightarrow> Inl e
      | Inr (Directory n) \<Rightarrow> Inl (OSError EISDIR (Some p))
      | Inr (Regular st_size c oe re) \<Rightarrow>
         (case oe of
            Some e \<Rightarrow> Inl (OSError e (Some p))
          | None \<Rightarrow>
             let f = fresh_handle (handles w)
             in Inr (f, w\<lparr>handles := (f, \<lparr>stream = c, fault = re, pos = 0\<rparr>) # handles w\<rparr>)))"

text \<open>
  \<open>f.read(n)\<close> on a buffered reader of a regular file: the next \<open>n\<close> bytes, fewer
  only at the end of the file; the position moves past them. How many bytes the reader
  fetches into its buffer below that is not part of the model.
\<close>

definition file_read :: "world \<Rightarrow> nat \<Rightarrow> nat \<Rightarrow> py_exception + (byte list \<times> world)" where
  "file_read w f n =
     (case map_of (handles w) f of
        None \<Rightarrow> Inl (ValueError ''read of closed file'')
      | Some h \<Rightarrow>
         (case fault h of
            Some e \<Rightarrow> Inl (OSError e None)
          | None \<Rightarrow>
             let bs = take n (drop (pos h) (stream h))
             in Inr (bs, w\<lparr>handles :=
                          AList.update f (h\<lparr>pos := pos h + length bs\<rparr>) (handles w)\<rparr>)))"

definition file_close :: "world \<Rightarrow> nat \<Rightarrow> world" where
  "file_close w f = w\<lparr>handles := AList.delete f (handles w)\<rparr>"

subsection \<open>parse\_ddd\<close>

text \<open>
  The body of the \<open>try\<close>: an exception raised by a call leaves it at once (\<open>Inl\<close>);
  the \<open>with\<close> statement closes the file on the way out, also when \<open>read\<close> raises.
\<close>

definition parse_ddd_try :: "world \<Rightarrow> path \<Rightarrow> (py_exception + py_dict) \<times> world" where
  "parse_ddd_try w filepath =
     (case os_path_getsize w filepath of
        Inl e \<Rightarrow> (Inl e, w)
      | Inr fsize \<Rightarrow>
         let filename = os_path_basename filepath in
         (case open_rb w filepath of
            Inl e \<Rightarrow> (Inl e, w)
          | Inr (f, w1) \<Rightarrow>
             (case file_read w1 f 16 of
                Inl e \<Rightarrow> (Inl e, file_close w1 f)
              | Inr (header, w2) \<Rightarrow>
                 let header_hex = bytes_hex header;
                     w3 = file_close w2 f
                 in (Inr [(''title'', PyStr ''Report from Python Parser''),
                          (''filename'', PyStr filename),
                          (''format'', PyStr ''DDD''),
                          (''fileSize'', PyInt (int fsize)),
                          (''headerHex'', PyStr header_hex),
                          (''message'',
                             PyStr ''This file was processed by the Python fallback parser.'')],
                     w3))))"

text \<open>\<open>except Exception as e: return {"error": str(e)}\<close>.\<close>

definition parse_ddd :: "world \<Rightarrow> path \<Rightarrow> py_dict \<times> world" where
  "parse_ddd w filepath =
     (case parse_ddd_try w filepath of
        (Inl e, w') \<Rightarrow> ([(''error'', PyStr (exception_str e))], w')
      | (Inr result, w') \<Rightarrow> (result, w'))"

subsection \<open>json.dumps\<close>

text \<open>
  The encoder with its defaults (\<open>ensure_ascii=True\<close>), for a dictionary of strings
  and integers. Without \<open>indent\<close> the members are separated by \<open>", "\<close>; with
  \<open>indent=n\<close> every member stands on a line of its own after \<open>n\<close> spaces, the
  separator is \<open>","\<close>, and the closing brace has a line of its own.
\<close>

definition json_escape :: "char \<Rightarrow> string" where
  "json_escape c =
     (if c = dquote then [backslash, dquote]
      else if c = backslash then [backslash, backslash]
      else if c = CHR 0x0A then [backslash, CHR ''n'']
      else if c = CHR 0x0D then [backslash, CHR ''r'']
      else if c = CHR 0x09 then [backslash, CHR ''t'']
      else if c = CHR 0x08 then [backslash, CHR ''b'']
      else if c = CHR 0x0C then [backslash, CHR ''f'']
      else if 0x20 \<le> (of_char c :: nat) \<and> (of_char c :: nat) \<le> 0x7e then [c]
      else [backslash, CHR ''u''] @ hex4 (of_char c))"

definition json_str :: "string \<Rightarrow> string" where
  "json_str s = dquote # concat (map json_escape s) @ [dquote]"

fun json_value :: "py_value \<Rightarrow> string" where
  "json_value (PyStr s) = json_str s"
| "json_value (PyInt i) = str_int i"

definition json_item :: "string \<times> py_value \<Rightarrow> string" where
  "json_item kv = json_str (fst kv) @ '': '' @ json_value (snd kv)"

fun join :: "string \<Rightarrow> string list \<Rightarrow> string" where
  "join sep [] = []"
| "join sep [x] = x"
| "join sep (x # y # ys) = x @ sep @ join sep (y # ys)"

definition json_dumps :: "nat option \<Rightarrow> py_dict \<Rightarrow> string" where
  "json_dumps indent d =
     (if d = [] then ''{}''
      else case indent of
             None \<Rightarrow> ''{'' @ join '', '' (map json_item d) @ ''}''
           | Some n \<Rightarrow>
              let newline_indent = newline # replicate n (CHR '' '')
              in ''{'' @ newline_indent @ join ('','' @ newline_indent) (map json_item d)
                 @ [newline] @ ''}'')"

subsection \<open>The command line\<close>

text \<open>
  \<open>argv\<close> is \<open>sys.argv\<close>: the name of the script, then the arguments. A run yields
  what \<open>print\<close> wrote to standard output (the text and a newline) and the exit code:
  1 from \<open>sys.exit(1)\<close>, 0 when the script runs to its end.
\<close>

definition main :: "world \<Rightarrow> string list \<Rightarrow> (string \<times> int) \<times> world" where
  "main w argv =
     (if length argv < 2
      then ((json_dumps None [(''error'', PyStr ''No file provided'')] @ [newline], 1), w)
      else
        let filepath = argv ! 1;
            (result, w') = parse_ddd w filepath
        in ((json_dumps (Some 2) result @ [newline], 0), w'))"

subsection \<open>Reading the specification\<close>

text \<open>
  An existing, readable file: a path the system accepts that names a regular file with
  the bytes \<open>c\<close>, which the process may open and read without a fault.
\<close>

definition readable_file :: "world \<Rightarrow> path \<Rightarrow> byte list \<Rightarrow> bool" where
  "readable_file w p c =
     (CHR 0x00 \<notin> set p \<and> (\<exists>st_size. lookup w p = Inr (Regular st_size c None None)))"

text \<open>The field \<open>k\<close> of a result, if it has one.\<close>

definition dict_get :: "py_dict \<Rightarrow> string \<Rightarrow> py_value option" where
  "dict_get d k = map_of d k"

text \<open>
  Pretty-printed with an indentation of \<open>n\<close>: the opening brace, one line for each
  member, indented by \<open>n\<close> spaces and followed by a comma unless it is the last, and
  the closing brace; the lines are separated by newlines.
\<close>

definition pretty_lines :: "nat \<Rightarrow> string list \<Rightarrow> string list" where
  "pretty_lines n items =
     [''{''] @ map (\<lambda>it. replicate n (CHR '' '') @ it @ '','') (butlast items)
     @ [replicate n (CHR '' '') @ last items] @ [''}'']"

definition pretty_printed :: "nat \<Rightarrow> py_dict \<Rightarrow> string" where
  "pretty_printed n d = join [newline] (pretty_lines n (map json_item d))"

subsection \<open>Reading JSON text\<close>

text \<open>
  A reader for the JSON texts the specification's schemas describe: an object whose
  members have string names and string or integer values. It follows the JSON grammar
  and not the writer above: white space is skipped between tokens; inside a string a
  quotation mark, a backslash and a control character must be escaped, and an escape
  is a backslash followed by a quotation mark, a backslash, a slash, one of the
  letters \<open>b\<close>, \<open>f\<close>, \<open>n\<close>, \<open>r\<close>, \<open>t\<close>, or \<open>u\<close> and four hexadecimal digits (of a code
  point of this model); an integer is an optional minus sign and decimal digits
  without a leading zero. \<open>json_chars\<close> reads a string after
  its opening quotation mark and returns it with the text that follows; the other
  readers return what follows likewise. The loop over the members has one unit of fuel
  for every character of the text, more than it can use.
\<close>

definition json_space :: "char \<Rightarrow> bool" where
  "json_space c = (c = CHR '' '' \<or> c = CHR 0x0A \<or> c = CHR 0x0D \<or> c = CHR 0x09)"

definition json_ws :: "string \<Rightarrow> string" where
  "json_ws s = dropWhile json_space s"

definition unhex4 :: "string \<Rightarrow> nat option" where
  "unhex4 s =
     (case map hex_value s of
        [Some a, Some b, Some c, Some d] \<Rightarrow> Some (((a * 16 + b) * 16 + c) * 16 + d)
      | _ \<Rightarrow> None)"

definition unescape :: "char \<Rightarrow> char option" where
  "unescape e =
     (if e = dquote \<or> e = backslash \<or> e = CHR ''/'' then Some e
      else if e = CHR ''b'' then Some (CHR 0x08)
      else if e = CHR ''f'' then Some (CHR 0x0C)
      else if e = CHR ''n'' then Some (CHR 0x0A)
      else if e = CHR ''r'' then Some (CHR 0x0D)
      else if e = CHR ''t'' then Some (CHR 0x09)
      else None)"

fun json_chars :: "string \<Rightarrow> (string \<times> string) option" where
  "json_chars [] = None"
| "json_chars (c # cs) =
     (if c = dquote then Some ([], cs)
      else if c = backslash then
        (case cs of
           [] \<Rightarrow> None
         | e # es \<Rightarrow>
            if e = CHR ''u'' then
              (case unhex4 (take 4 es) of
                 None \<Rightarrow> None
               | Some n \<Rightarrow>
                  if 256 \<le> n then None
                  else (case json_chars (drop 4 es) of
                          None \<Rightarrow> None
                        | Some (s, r) \<Rightarrow> Some (char_of n # s, r)))
            else
              (case unescape e of
                 None \<Rightarrow> None
               | Some x \<Rightarrow>
                  (case json_chars es of
                     None \<Rightarrow> None
                   | Some (s, r) \<Rightarrow> Some (x # s, r))))
      else if (of_char c :: nat) < 0x20 then None
      else (case json_chars cs of
              None \<Rightarrow> None
            | Some (s, r) \<Rightarrow> Some (c # s, r)))"

declare json_chars.simps [simp del]

definition is_digit :: "char \<Rightarrow> bool" where
  "is_digit c = (48 \<le> (of_char c :: nat) \<and> (of_char c :: nat) \<le> 57)"

definition digits_value :: "string \<Rightarrow> nat" where
  "digits_value ds = foldl (\<lambda>a c. 10 * a + (of_char c - 48)) 0 ds"

definition parse_int :: "string \<Rightarrow> (int \<times> string) option" where
  "parse_int s =
     (let negative = (s \<noteq> [] \<and> hd s = CHR ''-'');
          body = (if negative then tl s else s);
          ds = takeWhile is_digit body;
          rest = dropWhile is_digit body
      in if ds = [] \<or> (1 < length ds \<and> hd ds = CHR ''0'') then None
         else Some (if negative then - int (digits_value ds) else int (digits_value ds), rest))"

definition parse_value :: "string \<Rightarrow> (py_value \<times> string) option" where
  "parse_value s =
     (case s of
        [] \<Rightarrow> None
      | c # cs \<Rightarrow>
         if c = dquote then
           (case json_chars cs of
              None \<Rightarrow> None
            | Some (t, r) \<Rightarrow> Some (PyStr t, r))
         else
           (case parse_int s of
              None \<Rightarrow> None
            | Some (i, r) \<Rightarrow> Some (PyInt i, r)))"

definition parse_member :: "string \<Rightarrow> ((string \<times> py_value) \<times> string) option" where
  "parse_member s =
     (case s of
        [] \<Rightarrow> None
      | c # cs \<Rightarrow>
         if c \<noteq> dquote then None
         else
           (case json_chars cs of
              None \<Rightarrow> None
            | Some (k, r) \<Rightarrow>
               (case json_ws r of
                  [] \<Rightarrow> None
                | d # r' \<Rightarrow>
                   if d \<noteq> CHR '':'' then None
                   else
                     (case parse_value (json_ws r') of
                        None \<Rightarrow> None
                      | Some (v, r'') \<Rightarrow> Some ((k, v), r'')))))"

fun parse_members :: "nat \<Rightarrow> string \<Rightarrow> py_dict option" where
  "parse_members 0 s = None"
| "parse_members (Suc fuel) s =
     (case parse_member s of
        None \<Rightarrow> None
      | Some (kv, r) \<Rightarrow>
         (case json_ws r of
            [] \<Rightarrow> None
          | c # r' \<Rightarrow>
             if c = CHR '','' then
               (case parse_members fuel (json_ws r') of
                  None \<Rightarrow> None
                | Some d \<Rightarrow> Some (kv # d))
             else if c = CHR ''}'' \<and> json_ws r' = [] then Some [kv]
             else None))"

definition json_object :: "nat \<Rightarrow> string \<Rightarrow> py_dict option" where
  "json_object fuel s =
     (case s of
        [] \<Rightarrow> None
      | c # r \<Rightarrow>
         if c = CHR ''}'' then (if json_ws r = [] then Some [] else None)
         else parse_members fuel s)"

definition json_loads :: "string \<Rightarrow> py_dict option" where
  "json_loads s =
     (case json_ws s of
        [] \<Rightarrow> None
      | c # r \<Rightarrow> if c = CHR ''{'' then json_object (length s) (json_ws r) else None)"

subsection \<open>The two shapes of a result\<close>

definition dict_keys :: "py_dict \<Rightarrow> string list" where
  "dict_keys d = map fst d"

definition failure_shaped :: "py_dict \<Rightarrow> bool" where
  "failure_shaped d = (dict_keys d = [''error''])"

definition success_shaped :: "py_dict \<Rightarrow> bool" where
  "success_shaped d =
     (dict_keys d = [''title'', ''filename'', ''format'', ''fileSize'', ''headerHex'', ''message''])"

text \<open>The success shape as the specification counts it: five fields, none of them \<open>error\<close>.\<close>

definition five_field_success :: "py_dict \<Rightarrow> bool" where
  "five_field_success d =
     (distinct (dict_keys d) \<and> length d = 5 \<and> ''error'' \<notin> set (dict_keys d))"

subsection \<open>Sample worlds\<close>

text \<open>
  A directory \<open>data\<close> with the four-byte file \<open>sample.ddd\<close> of the specification, a
  file of twenty bytes, an empty file, a file the process may not read and a file on a
  medium that fails; a second file \<open>long.ddd\<close> elsewhere that differs from the first
  in its last four bytes only; and \<open>/proc/version\<close>, a regular file for which \<open>stat\<close>
  reports the size 0 and which yields the text \<open>Linux version 6.1.0\<close> and a newline.
  No file object is open.
\<close>

definition proc_version_bytes :: "byte list" where
  "proc_version_bytes =
     [0x4c, 0x69, 0x6e, 0x75, 0x78, 0x20, 0x76, 0x65, 0x72, 0x73, 0x69, 0x6f, 0x6e, 0x20,
      0x36, 0x2e, 0x31, 0x2e, 0x30, 0x0a]"

definition sample_lookup :: "path \<Rightarrow> errno + node" where
  "sample_lookup p =
     (if p = ''data'' then Inr (Directory 4096)
      else if p = ''data/sample.ddd'' then Inr (Regular 4 [0x00, 0x01, 0x02, 0x03] None None)
      else if p = ''data/long.ddd'' then
        Inr (Regular 20 [0x00, 0x01, 0x02, 0x03, 0x04, 0x05, 0x06, 0x07, 0x08, 0x09, 0x0a,
                         0x0b, 0x0c, 0x0d, 0x0e, 0x0f, 0x10, 0x11, 0x12, 0x13] None None)
      else if p = ''backup/long.ddd'' then
        Inr (Regular 20 [0x00, 0x01, 0x02, 0x03, 0x04, 0x05, 0x06, 0x07, 0x08, 0x09, 0x0a,
                         0x0b, 0x0c, 0x0d, 0x0e, 0x0f, 0xff, 0xfe, 0xfd, 0xfc] None None)
      else if p = ''data/empty.ddd'' then Inr (Regular 0 [] None None)
      else if p = ''data/secret.ddd'' then Inr (Regular 1 [0x2a] (Some EACCES) None)
      else if p = ''data/broken.ddd'' then Inr (Regular 1 [0x2a] None (Some EIO))
      else if p = ''/proc/version'' then Inr (Regular 0 proc_version_bytes None None)
      else Inl ENOENT)"

definition sample_world :: world where
  "sample_world = \<lparr>lookup = sample_lookup, handles = []\<rparr>"

text \<open>
  The same files with \<open>data/empty.ddd\<close> removed, while another file object is open
  at position 1.
\<close>

definition busy_world :: world where
  "busy_world =
     \<lparr>lookup = (\<lambda>p. if p = ''data/empty.ddd'' then Inl ENOENT else sample_lookup p),
      handles = [(3, \<lparr>stream = [0x2a, 0x2b], fault = None, pos = 1\<rparr>)]\<rparr>"

section \<open>Properties of the runtime model\<close>

subsection \<open>Hexadecimal text\<close>






lemma nat_less_16_cases:
  assumes "n < (16 :: nat)"
  obtains "n = 0" | "n = 1" | "n = 2" | "n = 3" | "n = 4" | "n = 5" | "n = 6" | "n = 7"
    | "n = 8" | "n = 9" | "n = 10" | "n = 11" | "n = 12" | "n = 13" | "n = 14" | "n = 15"
  using assms by atomize_elim arith

lemma hex_value_hexdigits:
  assumes "n < 16"
  shows "hex_value (hexdigits ! n) = Some n"
  using assms
  by (cases n rule: nat_less_16_cases) (simp_all add: hex_value_def hexdigits_def)







subsection \<open>Open files\<close>

lemma fresh_handle_notin: "fresh_handle hs \<notin> fst ` set hs"
proof
  assume "fresh_handle hs \<in> fst ` set hs"
  then have "fresh_handle hs \<le> Max (set (0 # map fst hs))"
    by (intro Max_ge) auto
  then show False
    by (simp add: fresh_handle_def)
qed

subsection \<open>Pretty printing\<close>

lemma join_Cons:
  assumes "ys \<noteq> []"
  shows "join sep (x # ys) = x @ sep @ join sep ys"
  using assms by (cases ys) simp_all

lemma join_snoc:
  assumes "xs \<noteq> []"
  shows "join sep (xs @ [y]) = join sep xs @ sep @ y"
  using assms
proof (induction xs rule: list_nonempty_induct)
  case (single x)
  show ?case by simp
next
  case (cons x xs)
  then show ?case by (simp add: join_Cons)
qed

lemma join_member_lines:
  assumes "items \<noteq> []"
  shows "join [newline] (map (\<lambda>it. ind @ it @ '','') (butlast items) @ [ind @ last items])
       = ind @ join ('','' @ newline # ind) items"
  using assms
proof (induction items rule: list_nonempty_induct)
  case (single x)
  show ?case by simp
next
  case (cons x xs)
  then show ?case by (simp add: join_Cons)
qed

lemma json_dumps_indent:
  assumes "d \<noteq> []"
  shows "json_dumps (Some n) d = pretty_printed n d"
proof -
  let ?ind = "replicate n (CHR '' '')"
  let ?items = "map json_item d"
  let ?body = "map (\<lambda>it. ?ind @ it @ '','') (butlast ?items) @ [?ind @ last ?items]"
  have items: "?items \<noteq> []"
    using assms by simp
  have "pretty_printed n d = join [newline] ((''{'' # ?body) @ [''}''])"
    by (simp add: pretty_printed_def pretty_lines_def)
  also have "\<dots> = join [newline] (''{'' # ?body) @ [newline] @ ''}''"
    by (rule join_snoc) simp
  also have "join [newline] (''{'' # ?body) = ''{'' @ [newline] @ join [newline] ?body"
    by (rule join_Cons) simp
  also have "join [newline] ?body = ?ind @ join ('','' @ newline # ?ind) ?items"
    by (rule join_member_lines [OF items])
  finally show ?thesis
    using assms by (simp add: json_dumps_def Let_def)
qed


subsection \<open>The two outcomes of parse\_ddd\<close>

lemma readable_file_getsize:
  assumes "readable_file w p c"
  obtains n where "os_path_getsize w p = Inr n"
  using assms by (auto simp: readable_file_def os_path_getsize_def resolve_def)

lemma parse_ddd_try_readable:
  assumes "readable_file w p c" and "os_path_getsize w p = Inr n"
  shows "parse_ddd_try w p =
     (Inr [(''title'', PyStr ''Report from Python Parser''),
           (''filename'', PyStr (os_path_basename p)),
           (''format'', PyStr ''DDD''),
           (''fileSize'', PyInt (int n)),
           (''headerHex'', PyStr (bytes_hex (take 16 c))),
           (''message'', PyStr ''This file was processed by the Python fallback parser.'')],
      w)"
  using assms fresh_handle_notin [of "handles w"]
  by (auto simp: readable_file_def parse_ddd_try_def os_path_getsize_def resolve_def open_rb_def
      file_read_def file_close_def Let_def)

lemma parse_ddd_readable:
  assumes "readable_file w p c" and "os_path_getsize w p = Inr n"
  shows "parse_ddd w p =
     ([(''title'', PyStr ''Report from Python Parser''),
       (''filename'', PyStr (os_path_basename p)),
       (''format'', PyStr ''DDD''),
       (''fileSize'', PyInt (int n)),
       (''headerHex'', PyStr (bytes_hex (take 16 c))),
       (''message'', PyStr ''This file was processed by the Python fallback parser.'')],
      w)"
  by (simp add: parse_ddd_def parse_ddd_try_readable [OF assms])

lemma parse_ddd_try_world: "snd (parse_ddd_try w p) = w"
  using fresh_handle_notin [of "handles w"]
  by (auto simp: parse_ddd_try_def os_path_getsize_def resolve_def open_rb_def
      file_read_def file_close_def Let_def
      split: sum.splits node.splits option.splits prod.splits)

lemma parse_ddd_world: "snd (parse_ddd w p) = w"
  using parse_ddd_try_world [of w p]
  by (auto simp: parse_ddd_def split: prod.splits sum.splits)

lemma parse_ddd_raised:
  assumes "parse_ddd_try w p = (Inl e, w')"
  shows "parse_ddd w p = ([(''error'', PyStr (exception_str e))], w)"
  using assms parse_ddd_try_world [of w p] by (simp add: parse_ddd_def)

lemma parse_ddd_try_cases:
  obtains (success) c n where "readable_file w p c" and "os_path_getsize w p = Inr n"
  | (failure) e where "parse_ddd_try w p = (Inl e, w)"
proof (cases "fst (parse_ddd_try w p)")
  case (Inl e)
  then have "parse_ddd_try w p = (Inl e, w)"
    using parse_ddd_try_world [of w p] by (cases "parse_ddd_try w p") simp
  then show ?thesis by (rule failure)
next
  case (Inr d)
  then have "\<exists>c. readable_file w p c"
    by (auto simp: readable_file_def parse_ddd_try_def os_path_getsize_def resolve_def
        open_rb_def file_read_def Let_def
        split: sum.splits node.splits option.splits prod.splits if_splits)
  then obtain c where readable: "readable_file w p c" ..
  then obtain n where "os_path_getsize w p = Inr n"
    by (rule readable_file_getsize)
  with readable show ?thesis
    by (rule success)
qed

lemma success_shaped_not_failure: "success_shaped d \<Longrightarrow> \<not> failure_shaped d"
  by (simp add: success_shaped_def failure_shaped_def)

lemma parse_ddd_success_readable:
  assumes "success_shaped (fst (parse_ddd w p))"
  obtains c n where "readable_file w p c" and "os_path_getsize w p = Inr n"
proof (cases w p rule: parse_ddd_try_cases)
  case (success c n)
  then show ?thesis by (rule that)
next
  case (failure e)
  then have "failure_shaped (fst (parse_ddd w p))"
    by (simp add: parse_ddd_raised failure_shaped_def dict_keys_def)
  with assms show ?thesis
    using success_shaped_not_failure by blast
qed


lemma parse_ddd_nonempty: "fst (parse_ddd w p) \<noteq> []"
proof (cases w p rule: parse_ddd_try_cases)
  case (success c n)
  then show ?thesis by (simp add: parse_ddd_readable [of w p c n])
next
  case (failure e)
  then show ?thesis by (simp add: parse_ddd_raised)
qed

lemma parse_ddd_try_lookup:
  assumes "lookup w p = lookup w' p"
  shows "fst (parse_ddd_try w p) = fst (parse_ddd_try w' p)"
proof (cases w p rule: parse_ddd_try_cases)
  case (success c n)
  then have "readable_file w' p c" and "os_path_getsize w' p = Inr n"
    using assms by (simp_all add: readable_file_def os_path_getsize_def resolve_def)
  with success show ?thesis
    by (simp add: parse_ddd_try_readable [of _ p c n])
next
  case (failure e)
  then show ?thesis
    using assms
    by (auto simp: parse_ddd_try_def os_path_getsize_def resolve_def open_rb_def
        file_read_def Let_def
        split: sum.splits node.splits option.splits prod.splits if_splits)
qed

lemma parse_ddd_lookup:
  assumes "lookup w p = lookup w' p"
  shows "fst (parse_ddd w p) = fst (parse_ddd w' p)"
  using parse_ddd_try_lookup [OF assms]
  by (cases "parse_ddd_try w p"; cases "parse_ddd_try w' p")
    (auto simp: parse_ddd_def split: sum.splits)

lemma main_world: "snd (main w argv) = w"
  using parse_ddd_world [of w "argv ! 1"]
  by (auto simp: main_def Let_def split: prod.splits)

subsection \<open>Reading back what json.dumps writes\<close>

lemma json_ws_nonspace:
  assumes "\<not> json_space c"
  shows "json_ws (c # s) = c # s"
  using assms by (simp add: json_ws_def)

lemma json_ws_spaces:
  assumes "list_all json_space pad"
  shows "json_ws (pad @ s) = json_ws s"
  using assms by (induction pad) (simp_all add: json_ws_def)

lemma hex2_zero: "hex2 0 = ''00''"
  by (simp add: hex2_def hexdigits_def)

lemma unhex4_hex4:
  assumes "n < 256"
  shows "unhex4 (hex4 n) = Some n"
proof -
  have high: "n div 16 < 16" and low: "n mod 16 < 16"
    using assms by simp_all
  have zero: "hex_value (CHR ''0'') = Some 0"
    by (simp add: hex_value_def)
  have "n div 256 = 0" and "n div 16 mod 16 = n div 16"
    using assms by simp_all
  then have "hex4 n = [CHR ''0'', CHR ''0'', hexdigits ! (n div 16), hexdigits ! (n mod 16)]"
    by (simp add: hex4_def hex2_zero) (simp add: hex2_def)
  moreover have "n div 16 * 16 + n mod 16 = n"
    by simp
  ultimately show ?thesis
    by (simp add: unhex4_def zero hex_value_hexdigits [OF high] hex_value_hexdigits [OF low])
qed

lemma json_chars_closing: "json_chars (dquote # rest) = Some ([], rest)"
  by (simp add: json_chars.simps)

lemma json_chars_plain:
  assumes "c \<noteq> dquote" and "c \<noteq> backslash" and "0x20 \<le> (of_char c :: nat)"
  shows "json_chars (c # X)
       = (case json_chars X of None \<Rightarrow> None | Some (s, r) \<Rightarrow> Some (c # s, r))"
  using assms by (simp add: json_chars.simps(2) [of c])

lemma json_chars_simple_escape:
  assumes "json_escape c = [backslash, e]" and "unescape e = Some c" and "e \<noteq> CHR ''u''"
  shows "json_chars (json_escape c @ X)
       = (case json_chars X of None \<Rightarrow> None | Some (s, r) \<Rightarrow> Some (c # s, r))"
proof -
  have "backslash \<noteq> dquote"
    by (simp add: dquote_def backslash_def)
  then show ?thesis
    using assms by (simp add: json_chars.simps(2) [of backslash])
qed

lemma json_chars_unicode_escape:
  assumes "json_escape c = [backslash, CHR ''u''] @ hex4 (of_char c)"
  shows "json_chars (json_escape c @ X)
       = (case json_chars X of None \<Rightarrow> None | Some (s, r) \<Rightarrow> Some (c # s, r))"
proof -
  have small: "(of_char c :: nat) < 256"
    by simp
  have four: "length (hex4 (of_char c)) = 4"
    by (simp add: hex4_def hex2_def)
  have "backslash \<noteq> dquote"
    by (simp add: dquote_def backslash_def)
  moreover have "\<not> 256 \<le> (of_char c :: nat)"
    by (simp add: not_le)
  ultimately show ?thesis
    by (cases "json_chars X")
      (simp_all add: assms json_chars.simps(2) [of backslash] four unhex4_hex4 [OF small])
qed

lemma json_chars_escape:
  "json_chars (json_escape c @ X)
     = (case json_chars X of None \<Rightarrow> None | Some (s, r) \<Rightarrow> Some (c # s, r))"
proof -
  consider (quote) "c = dquote" | (slash) "c = backslash"
    | (nl) "c = CHR 0x0A" | (cr) "c = CHR 0x0D" | (tab) "c = CHR 0x09"
    | (bs) "c = CHR 0x08" | (ff) "c = CHR 0x0C"
    | (plain) "c \<noteq> dquote" "c \<noteq> backslash" "c \<noteq> CHR 0x0A" "c \<noteq> CHR 0x0D" "c \<noteq> CHR 0x09"
        "c \<noteq> CHR 0x08" "c \<noteq> CHR 0x0C" "0x20 \<le> (of_char c :: nat) \<and> (of_char c :: nat) \<le> 0x7e"
    | (other) "c \<noteq> dquote" "c \<noteq> backslash" "c \<noteq> CHR 0x0A" "c \<noteq> CHR 0x0D" "c \<noteq> CHR 0x09"
        "c \<noteq> CHR 0x08" "c \<noteq> CHR 0x0C" "\<not> (0x20 \<le> (of_char c :: nat) \<and> (of_char c :: nat) \<le> 0x7e)"
    by blast
  then show ?thesis
  proof cases
    case quote
    show ?thesis
      by (rule json_chars_simple_escape [of c dquote])
        (simp_all add: quote json_escape_def unescape_def dquote_def)
  next
    case slash
    show ?thesis
      by (rule json_chars_simple_escape [of c backslash])
        (simp_all add: slash json_escape_def unescape_def dquote_def backslash_def)
  next
    case nl
    show ?thesis
      by (rule json_chars_simple_escape [of c "CHR ''n''"])
        (simp_all add: nl json_escape_def unescape_def dquote_def backslash_def)
  next
    case cr
    show ?thesis
      by (rule json_chars_simple_escape [of c "CHR ''r''"])
        (simp_all add: cr json_escape_def unescape_def dquote_def backslash_def)
  next
    case tab
    show ?thesis
      by (rule json_chars_simple_escape [of c "CHR ''t''"])
        (simp_all add: tab json_escape_def unescape_def dquote_def backslash_def)
  next
    case bs
    show ?thesis
      by (rule json_chars_simple_escape [of c "CHR ''b''"])
        (simp_all add: bs json_escape_def unescape_def dquote_def backslash_def)
  next
    case ff
    show ?thesis
      by (rule json_chars_simple_escape [of c "CHR ''f''"])
        (simp_all add: ff json_escape_def unescape_def dquote_def backslash_def)
  next
    case plain
    then have "json_escape c = [c]"
      by (simp add: json_escape_def)
    with plain show ?thesis
      using json_chars_plain [of c X] by simp
  next
    case other
    then have "json_escape c = [backslash, CHR ''u''] @ hex4 (of_char c)"
      by (simp add: json_escape_def)
    then show ?thesis
      by (rule json_chars_unicode_escape)
  qed
qed

lemma json_chars_json_str:
  "json_chars (concat (map json_escape s) @ dquote # rest) = Some (s, rest)"
  by (induction s) (simp_all add: json_chars_closing json_chars_escape)

lemma decimal_digit_code:
  assumes "n < 10"
  shows "(of_char (hexdigits ! n) :: nat) = 48 + n"
proof -
  from assms have "n < 16" by simp
  then show ?thesis
    using assms by (cases n rule: nat_less_16_cases) (simp_all add: hexdigits_def)
qed

lemma is_digit_decimal:
  assumes "n < 10"
  shows "is_digit (hexdigits ! n)"
  using decimal_digit_code [OF assms] assms by (simp add: is_digit_def)

lemma str_nat_nonempty: "str_nat n \<noteq> []"
  by (subst str_nat.simps) simp

lemma str_nat_digits: "list_all is_digit (str_nat n)"
proof (induction n rule: str_nat.induct)
  case (1 n)
  show ?case
  proof (cases "n < 10")
    case True
    then show ?thesis
      by (subst str_nat.simps) (simp add: is_digit_decimal)
  next
    case False
    with "1" show ?thesis
      by (subst str_nat.simps) (simp add: is_digit_decimal)
  qed
qed

lemma digits_value_snoc:
  "digits_value (ds @ [c]) = 10 * digits_value ds + (of_char c - 48)"
  by (simp add: digits_value_def)

lemma digits_value_str_nat: "digits_value (str_nat n) = n"
proof (induction n rule: str_nat.induct)
  case (1 n)
  show ?case
  proof (cases "n < 10")
    case True
    then show ?thesis
      by (subst str_nat.simps) (simp add: digits_value_def decimal_digit_code)
  next
    case False
    then have "digits_value (str_nat (n div 10)) = n div 10"
      using "1" by simp
    with False show ?thesis
      by (subst str_nat.simps) (simp add: digits_value_snoc decimal_digit_code)
  qed
qed

lemma str_nat_zero:
  assumes "str_nat n = ''0''"
  shows "n = 0"
proof -
  have "digits_value (str_nat n) = digits_value ''0''"
    using assms by simp
  then show ?thesis
    by (simp add: digits_value_str_nat) (simp add: digits_value_def)
qed

lemma str_nat_leading:
  assumes "0 < n"
  shows "hd (str_nat n) \<noteq> CHR ''0''"
  using assms
proof (induction n rule: str_nat.induct)
  case (1 n)
  show ?case
  proof (cases "n < 10")
    case True
    with "1.prems" have "(of_char (hexdigits ! n) :: nat) \<noteq> 48"
      by (simp add: decimal_digit_code)
    then have "hexdigits ! n \<noteq> CHR ''0''"
      by auto
    with True show ?thesis
      by (subst str_nat.simps) simp
  next
    case False
    then have "0 < n div 10"
      by simp
    with False "1.IH" have "hd (str_nat (n div 10)) \<noteq> CHR ''0''"
      by simp
    with False show ?thesis
      by (subst str_nat.simps) (simp add: str_nat_nonempty)
  qed
qed

lemma str_nat_no_leading_zero:
  "\<not> (1 < length (str_nat n) \<and> hd (str_nat n) = CHR ''0'')"
proof (cases "n = 0")
  case True
  then show ?thesis
    by (subst str_nat.simps) simp
next
  case False
  then show ?thesis
    using str_nat_leading [of n] by simp
qed

lemma takeWhile_digits:
  assumes "list_all is_digit ds" and "rest = [] \<or> \<not> is_digit (hd rest)"
  shows "takeWhile is_digit (ds @ rest) = ds" and "dropWhile is_digit (ds @ rest) = rest"
proof -
  from assms (2) have stop: "takeWhile is_digit rest = []" "dropWhile is_digit rest = rest"
    by (cases rest; simp)+
  from assms (1) have all: "\<forall>c \<in> set ds. is_digit c"
    by (simp add: list_all_iff)
  from all stop show "takeWhile is_digit (ds @ rest) = ds"
    by (simp add: takeWhile_append2)
  from all stop show "dropWhile is_digit (ds @ rest) = rest"
    by (simp add: dropWhile_append2)
qed

lemma hd_str_nat_digit: "is_digit (hd (str_nat n))"
  using str_nat_digits [of n] str_nat_nonempty [of n]
  by (cases "str_nat n") simp_all

lemma parse_int_str_int:
  assumes "rest = [] \<or> \<not> is_digit (hd rest)"
  shows "parse_int (str_int i @ rest) = Some (i, rest)"
proof (cases "i < 0")
  case True
  let ?ds = "str_nat (nat (- i))"
  have written: "str_int i @ rest = CHR ''-'' # ?ds @ rest"
    using True by (simp add: str_int_def)
  have "takeWhile is_digit (?ds @ rest) = ?ds" and "dropWhile is_digit (?ds @ rest) = rest"
    using takeWhile_digits [OF str_nat_digits assms] by simp_all
  then show ?thesis
    using True str_nat_nonempty [of "nat (- i)"] str_nat_no_leading_zero [of "nat (- i)"]
    by (simp add: written parse_int_def digits_value_str_nat Let_def)
next
  case False
  let ?ds = "str_nat (nat i)"
  have written: "str_int i @ rest = ?ds @ rest"
    using False by (simp add: str_int_def)
  have "is_digit (hd ?ds)"
    by (rule hd_str_nat_digit)
  then have "hd ?ds \<noteq> CHR ''-''"
    by (auto simp: is_digit_def)
  then have plus: "\<not> (?ds @ rest \<noteq> [] \<and> hd (?ds @ rest) = CHR ''-'')"
    using str_nat_nonempty [of "nat i"] by simp
  have "takeWhile is_digit (?ds @ rest) = ?ds" and "dropWhile is_digit (?ds @ rest) = rest"
    using takeWhile_digits [OF str_nat_digits assms] by simp_all
  then show ?thesis
    using False plus str_nat_nonempty [of "nat i"] str_nat_no_leading_zero [of "nat i"]
    by (simp add: written parse_int_def digits_value_str_nat Let_def)
qed

lemma space_not_digit:
  assumes "json_space c"
  shows "\<not> is_digit c"
  using assms by (auto simp: json_space_def is_digit_def)

lemma json_ws_all_spaces:
  assumes "list_all json_space tail"
  shows "json_ws tail = []"
  using assms by (induction tail) (simp_all add: json_ws_def)

lemma punctuation_not_space:
  "\<not> json_space dquote" "\<not> json_space (CHR '':'')" "\<not> json_space (CHR '','')"
  "\<not> json_space (CHR ''}'')" "\<not> json_space (CHR ''{'')"
  by (simp_all add: json_space_def dquote_def)

lemma punctuation_not_digit:
  "\<not> is_digit (CHR '','')" "\<not> is_digit (CHR ''}'')"
  by (simp_all add: is_digit_def)

lemma str_int_first:
  obtains c cs where "str_int i = c # cs" and "c \<noteq> dquote" and "\<not> json_space c"
proof (cases "i < 0")
  case True
  then have "str_int i = CHR ''-'' # str_nat (nat (- i))"
    by (simp add: str_int_def)
  moreover have "CHR ''-'' \<noteq> dquote" and "\<not> json_space (CHR ''-'')"
    by (simp_all add: dquote_def json_space_def)
  ultimately show ?thesis
    by (rule that)
next
  case False
  obtain c cs where split: "str_nat (nat i) = c # cs"
    using str_nat_nonempty [of "nat i"] by (cases "str_nat (nat i)") auto
  with hd_str_nat_digit [of "nat i"] have digit: "is_digit c"
    by simp
  then have "c \<noteq> dquote" and "\<not> json_space c"
    by (auto simp: is_digit_def dquote_def json_space_def)
  moreover have "str_int i = c # cs"
    using False split by (simp add: str_int_def)
  ultimately show ?thesis
    using that by blast
qed

lemma json_value_first:
  obtains c cs where "json_value v = c # cs" and "\<not> json_space c"
proof (cases v)
  case (PyStr s)
  then have "json_value v = dquote # concat (map json_escape s) @ [dquote]"
    by (simp add: json_str_def)
  then show ?thesis
    using punctuation_not_space (1) by (rule that)
next
  case (PyInt i)
  obtain c cs where "str_int i = c # cs" and "\<not> json_space c"
    by (rule str_int_first)
  with PyInt show ?thesis
    using that by simp
qed

lemma parse_value_json_value:
  assumes "rest = [] \<or> \<not> is_digit (hd rest)"
  shows "parse_value (json_value v @ rest) = Some (v, rest)"
proof (cases v)
  case (PyStr s)
  then show ?thesis
    by (simp add: parse_value_def json_str_def json_chars_json_str)
next
  case (PyInt i)
  obtain c cs where first: "str_int i = c # cs" and "c \<noteq> dquote"
    by (rule str_int_first)
  then have "parse_value (str_int i @ rest)
      = (case parse_int (str_int i @ rest) of None \<Rightarrow> None | Some (j, r) \<Rightarrow> Some (PyInt j, r))"
    by (simp add: parse_value_def)
  with PyInt show ?thesis
    by (simp add: parse_int_str_int [OF assms])
qed

lemma parse_member_json_item:
  assumes "rest = [] \<or> \<not> is_digit (hd rest)"
  shows "parse_member (json_item kv @ rest) = Some (kv, rest)"
proof -
  obtain c cs where first: "json_value (snd kv) = c # cs" and "\<not> json_space c"
    by (rule json_value_first)
  then have skip: "json_ws (CHR '' '' # json_value (snd kv) @ rest) = json_value (snd kv) @ rest"
    by (simp add: json_ws_def json_space_def)
  have colon: "json_ws (CHR '':'' # CHR '' '' # json_value (snd kv) @ rest)
      = CHR '':'' # CHR '' '' # json_value (snd kv) @ rest"
    by (rule json_ws_nonspace) (rule punctuation_not_space)
  have "json_item kv @ rest
      = dquote # concat (map json_escape (fst kv))
          @ dquote # CHR '':'' # CHR '' '' # json_value (snd kv) @ rest"
    by (simp add: json_item_def json_str_def)
  then show ?thesis
    by (simp add: parse_member_def json_chars_json_str colon skip
        parse_value_json_value [OF assms])
qed

lemma json_item_first: "\<exists>cs. json_item kv = dquote # cs"
  by (simp add: json_item_def json_str_def)

lemma join_items_first:
  assumes "d \<noteq> []"
  shows "\<exists>cs. join sep (map json_item d) @ rest = dquote # cs"
proof (cases d)
  case Nil
  with assms show ?thesis by simp
next
  case (Cons kv d')
  obtain cs where "json_item kv = dquote # cs"
    using json_item_first by blast
  with Cons show ?thesis
    by (cases d') simp_all
qed

lemma parse_members_join:
  assumes "d \<noteq> []" and "list_all json_space pad" and "list_all json_space pad'"
    and "list_all json_space tail" and "length d \<le> fuel"
  shows "parse_members fuel
           (join (CHR '','' # pad) (map json_item d) @ pad' @ CHR ''}'' # tail) = Some d"
  using assms (1, 5)
proof (induction d arbitrary: fuel rule: list_nonempty_induct)
  case (single kv)
  then obtain k where fuel: "fuel = Suc k"
    by (cases fuel) auto
  have stop: "pad' @ CHR ''}'' # tail = [] \<or> \<not> is_digit (hd (pad' @ CHR ''}'' # tail))"
    using assms (3) by (cases pad') (simp_all add: punctuation_not_digit space_not_digit)
  have closing: "json_ws (pad' @ CHR ''}'' # tail) = CHR ''}'' # tail"
    using json_ws_spaces [OF assms (3)] json_ws_nonspace [OF punctuation_not_space (4)]
    by simp
  show ?case
    by (simp add: fuel parse_member_json_item [OF stop] closing
        json_ws_all_spaces [OF assms (4)])
next
  case (cons kv d)
  then obtain k where fuel: "fuel = Suc k" and enough: "length d \<le> k"
    by (cases fuel) auto
  let ?next = "join (CHR '','' # pad) (map json_item d) @ pad' @ CHR ''}'' # tail"
  have written: "join (CHR '','' # pad) (map json_item (kv # d)) @ pad' @ CHR ''}'' # tail
      = json_item kv @ CHR '','' # pad @ ?next"
    using cons.hyps by (simp add: join_Cons)
  have stop: "CHR '','' # pad @ ?next = [] \<or> \<not> is_digit (hd (CHR '','' # pad @ ?next))"
    by (simp add: punctuation_not_digit)
  have comma: "json_ws (CHR '','' # pad @ ?next) = CHR '','' # pad @ ?next"
    by (rule json_ws_nonspace) (rule punctuation_not_space)
  obtain cs where "?next = dquote # cs"
    using join_items_first [OF cons.hyps] by blast
  then have skip: "json_ws (pad @ ?next) = ?next"
    using json_ws_spaces [OF assms (2), of ?next]
      json_ws_nonspace [OF punctuation_not_space (1), of cs] by simp
  show ?case
    unfolding written fuel
    by (simp add: parse_member_json_item [OF stop] comma skip cons.IH [OF enough])
qed

lemma json_item_nonempty: "json_item kv \<noteq> []"
  by (simp add: json_item_def json_str_def)

lemma length_join_items: "length d \<le> length (join sep (map json_item d))"
proof (induction d)
  case Nil
  show ?case by simp
next
  case (Cons kv d)
  obtain m where "length (json_item kv) = Suc m"
    using json_item_nonempty [of kv] by (cases "json_item kv") auto
  with Cons show ?case
    by (cases d) simp_all
qed

lemma json_object_members:
  "json_object fuel (dquote # cs) = parse_members fuel (dquote # cs)"
  by (simp add: json_object_def dquote_def del: parse_members.simps)

lemma json_loads_object:
  "json_loads (CHR ''{'' # s) = json_object (Suc (length s)) (json_ws s)"
proof -
  have "json_ws (CHR ''{'' # s) = CHR ''{'' # s"
    by (rule json_ws_nonspace) (rule punctuation_not_space)
  then show ?thesis
    by (simp add: json_loads_def)
qed

lemma json_loads_json_dumps:
  assumes "list_all json_space tail"
  shows "json_loads (json_dumps indent d @ tail) = Some d"
proof (cases "d = []")
  case True
  have "json_ws (CHR ''}'' # tail) = CHR ''}'' # tail"
    by (rule json_ws_nonspace) (rule punctuation_not_space)
  then show ?thesis
    using True
    by (simp add: json_loads_object json_object_def json_dumps_def
        json_ws_all_spaces [OF assms])
next
  case False
  define pad where "pad = (case indent of None \<Rightarrow> '' '' | Some n \<Rightarrow> newline # replicate n (CHR '' ''))"
  define lead where "lead = (case indent of None \<Rightarrow> [] | Some n \<Rightarrow> newline # replicate n (CHR '' ''))"
  define pad' where "pad' = (case indent of None \<Rightarrow> [] | Some n \<Rightarrow> [newline])"
  define members
    where "members = join (CHR '','' # pad) (map json_item d) @ pad' @ CHR ''}'' # tail"
  have spaces: "list_all json_space pad" "list_all json_space lead" "list_all json_space pad'"
    by (auto simp: pad_def lead_def pad'_def json_space_def newline_def list_all_iff
        split: option.splits)
  have written: "json_dumps indent d @ tail = CHR ''{'' # lead @ members"
    using False
    by (simp add: json_dumps_def pad_def lead_def pad'_def members_def Let_def
        split: option.splits)
  obtain cs where first: "members = dquote # cs"
    unfolding members_def using join_items_first [OF False] by blast
  have skip: "json_ws (lead @ members) = members"
    using json_ws_spaces [OF spaces (2), of members]
      json_ws_nonspace [OF punctuation_not_space (1), of cs] first by simp
  have "length d \<le> length (join (CHR '','' # pad) (map json_item d))"
    by (rule length_join_items)
  then have enough: "length d \<le> Suc (length (lead @ members))"
    by (simp add: members_def)
  have parsed: "parse_members (Suc (length (lead @ members))) members = Some d"
    unfolding members_def
    by (rule parse_members_join [OF False spaces (1) spaces (3) assms])
      (use enough in \<open>simp add: members_def\<close>)
  have "json_loads (CHR ''{'' # lead @ members)
      = json_object (Suc (length (lead @ members))) members"
    by (simp only: json_loads_object skip)
  also have "\<dots> = parse_members (Suc (length (lead @ members))) members"
    unfolding first by (rule json_object_members)
  finally show ?thesis
    by (simp only: written parsed)
qed

section \<open>The claims\<close>

lemmas world_defs = sample_world_def sample_lookup_def busy_world_def readable_file_def

lemmas run_defs = parse_ddd_def parse_ddd_try_def os_path_getsize_def resolve_def open_rb_def
  file_read_def file_close_def fresh_handle_def os_path_basename_def Let_def

lemmas hex_defs = bytes_hex_def hex_of_byte_def hexdigits_def hex_value_def



text \<open>
  Claim C2, as the specification words it, takes \<open>fileSize\<close> to be the byte length of
  the file. The script takes it from \<open>os.path.getsize\<close>, a call of its own, before it
  opens the file. For \<open>/proc/version\<close>, a readable regular file, \<open>stat\<close> reports the
  size 0 while the file yields 20 bytes (and \<open>headerHex\<close> shows the first 16): the
  field is 0, not 20.
\<close>
theorem file_size_byte_length_counterexample:
  "readable_file sample_world ''/proc/version'' proc_version_bytes
   \<and> length proc_version_bytes = 20
   \<and> dict_get (fst (parse_ddd sample_world ''/proc/version'')) ''fileSize'' = Some (PyInt 0)
   \<and> dict_get (fst (parse_ddd sample_world ''/proc/version'')) ''fileSize''
       \<noteq> Some (PyInt (int (length proc_version_bytes)))
   \<and> dict_get (fst (parse_ddd sample_world ''/proc/version'')) ''headerHex''
       = Some (PyStr ''4c696e75782076657273696f6e20362e'')"
proof -
  have version: "readable_file sample_world ''/proc/version'' proc_version_bytes"
    by (simp add: world_defs)
  have reported: "os_path_getsize sample_world ''/proc/version'' = Inr 0"
    by (simp add: world_defs os_path_getsize_def resolve_def)
  have bytes: "length proc_version_bytes = 20"
    "bytes_hex (take 16 proc_version_bytes) = ''4c696e75782076657273696f6e20362e''"
    by (simp_all add: proc_version_bytes_def hex_defs)
  show ?thesis
    using version by (simp add: parse_ddd_readable [OF version reported] dict_get_def bytes)
qed

text \<open>
  Claim C2, amended. For a readable file, the \<open>fileSize\<close> field is the size that
  \<open>os.path.getsize\<close> reports for the path at the time of inspection, a non-negative
  integer; it is the byte length of the file whenever the reported size is the byte
  length, as it is for a file stored on a disk. Whatever \<open>fileSize\<close> a result carries
  is a non-negative integer.
\<close>
theorem file_size_is_reported_size:
  assumes "readable_file w F c" and "os_path_getsize w F = Inr n"
  shows "dict_get (fst (parse_ddd w F)) ''fileSize'' = Some (PyInt (int n))
       \<and> 0 \<le> int n
       \<and> (n = length c
            \<longrightarrow> dict_get (fst (parse_ddd w F)) ''fileSize'' = Some (PyInt (int (length c))))
       \<and> (\<forall>v. dict_get (fst (parse_ddd w F)) ''fileSize'' = Some v
              \<longrightarrow> (\<exists>i. v = PyInt i \<and> 0 \<le> i))"
  by (simp add: parse_ddd_readable [OF assms] dict_get_def)

text \<open>
  The file of twenty bytes, whose reported size is its length, and \<open>/proc/version\<close>,
  whose reported size is 0.
\<close>
theorem file_size_is_reported_size_witness:
  "readable_file sample_world ''data/long.ddd''
     [0x00, 0x01, 0x02, 0x03, 0x04, 0x05, 0x06, 0x07, 0x08, 0x09, 0x0a, 0x0b,
      0x0c, 0x0d, 0x0e, 0x0f, 0x10, 0x11, 0x12, 0x13]
   \<and> os_path_getsize sample_world ''data/long.ddd'' = Inr 20
   \<and> dict_get (fst (parse_ddd sample_world ''data/long.ddd'')) ''fileSize'' = Some (PyInt 20)
   \<and> readable_file sample_world ''/proc/version'' proc_version_bytes
   \<and> os_path_getsize sample_world ''/proc/version'' = Inr 0
   \<and> dict_get (fst (parse_ddd sample_world ''/proc/version'')) ''fileSize'' = Some (PyInt 0)"
proof -
  have long: "readable_file sample_world ''data/long.ddd''
     [0x00, 0x01, 0x02, 0x03, 0x04, 0x05, 0x06, 0x07, 0x08, 0x09, 0x0a, 0x0b,
      0x0c, 0x0d, 0x0e, 0x0f, 0x10, 0x11, 0x12, 0x13]"
    by (simp add: world_defs)
  have long_size: "os_path_getsize sample_world ''data/long.ddd'' = Inr 20"
    by (simp add: world_defs os_path_getsize_def resolve_def)
  have version: "readable_file sample_world ''/proc/version'' proc_version_bytes"
    by (simp add: world_defs)
  have version_size: "os_path_getsize sample_world ''/proc/version'' = Inr 0"
    by (simp add: world_defs os_path_getsize_def resolve_def)
  show ?thesis
    using long long_size version version_size
      file_size_is_reported_size [OF long long_size]
      file_size_is_reported_size [OF version version_size]
    by simp
qed

text \<open>
  Claim C3. Whichever step fails (\<open>os.path.getsize\<close>, \<open>open\<close> or \<open>read\<close>), and
  whatever exception leaves the \<open>try\<close> body, the function returns the dictionary with
  the single key \<open>error\<close> holding the text of that exception, and the world is as
  before (the file is closed again). A path that does not exist gives a result with
  the key \<open>error\<close> and no other, also when the path is malformed. Every call returns a
  dictionary of one of the two shapes: no exception reaches the caller.
\<close>
theorem failures_become_error_results:
  "(os_path_getsize w P = Inl e
      \<longrightarrow> parse_ddd w P = ([(''error'', PyStr (exception_str e))], w))
   \<and> (os_path_getsize w P = Inr n \<and> open_rb w P = Inl e
      \<longrightarrow> parse_ddd w P = ([(''error'', PyStr (exception_str e))], w))
   \<and> (os_path_getsize w P = Inr n \<and> open_rb w P = Inr (f, w1) \<and> file_read w1 f 16 = Inl e
      \<longrightarrow> parse_ddd w P = ([(''error'', PyStr (exception_str e))], w))
   \<and> (parse_ddd_try w P = (Inl e, w')
      \<longrightarrow> parse_ddd w P = ([(''error'', PyStr (exception_str e))], w))
   \<and> (lookup w P = Inl ENOENT
      \<longrightarrow> failure_shaped (fst (parse_ddd w P))
          \<and> dict_keys (fst (parse_ddd w P)) = [''error''])
   \<and> (failure_shaped (fst (parse_ddd w P)) \<or> success_shaped (fst (parse_ddd w P)))"
proof -
  have at_stat: "parse_ddd w P = ([(''error'', PyStr (exception_str e))], w)"
    if "os_path_getsize w P = Inl e"
    using that by (intro parse_ddd_raised [of w P e w]) (simp add: parse_ddd_try_def)
  have at_open: "parse_ddd w P = ([(''error'', PyStr (exception_str e))], w)"
    if "os_path_getsize w P = Inr n" and "open_rb w P = Inl e"
    using that by (intro parse_ddd_raised [of w P e w]) (simp add: parse_ddd_try_def)
  have at_read: "parse_ddd w P = ([(''error'', PyStr (exception_str e))], w)"
    if "os_path_getsize w P = Inr n" and "open_rb w P = Inr (f, w1)"
      and "file_read w1 f 16 = Inl e"
    using that
    by (intro parse_ddd_raised [of w P e "file_close w1 f"]) (simp add: parse_ddd_try_def)
  have raised: "parse_ddd w P = ([(''error'', PyStr (exception_str e))], w)"
    if "parse_ddd_try w P = (Inl e, w')"
    using that by (rule parse_ddd_raised)
  have missing: "failure_shaped (fst (parse_ddd w P))" if "lookup w P = Inl ENOENT"
  proof -
    from that have "\<exists>x. os_path_getsize w P = Inl x"
      by (simp add: os_path_getsize_def resolve_def)
    then obtain x where "os_path_getsize w P = Inl x" ..
    then have "parse_ddd w P = ([(''error'', PyStr (exception_str x))], w)"
      by (intro parse_ddd_raised [of w P x w]) (simp add: parse_ddd_try_def)
    then show ?thesis
      by (simp add: failure_shaped_def dict_keys_def)
  qed
  have total: "failure_shaped (fst (parse_ddd w P)) \<or> success_shaped (fst (parse_ddd w P))"
  proof (cases w P rule: parse_ddd_try_cases)
    case (success c n)
    then show ?thesis
      by (simp add: parse_ddd_readable [of w P c n] success_shaped_def dict_keys_def)
  next
    case (failure x)
    then show ?thesis
      by (simp add: parse_ddd_raised failure_shaped_def dict_keys_def)
  qed
  from at_stat at_open at_read raised missing total show ?thesis
    unfolding failure_shaped_def by blast
qed

text \<open>
  A path that does not exist, a directory, a file that may not be opened and a file
  whose medium fails on reading, with the messages \<open>str(e)\<close> produces.
\<close>
theorem failures_become_error_results_witness:
  "os_path_getsize sample_world ''nowhere.ddd'' = Inl (OSError ENOENT (Some ''nowhere.ddd''))
   \<and> lookup sample_world ''nowhere.ddd'' = Inl ENOENT
   \<and> parse_ddd sample_world ''nowhere.ddd''
       = ([(''error'', PyStr (''[Errno 2] No such file or directory: ''
                               @ [squote] @ ''nowhere.ddd'' @ [squote]))], sample_world)
   \<and> os_path_getsize sample_world ''data'' = Inr 4096
   \<and> open_rb sample_world ''data'' = Inl (OSError EISDIR (Some ''data''))
   \<and> parse_ddd sample_world ''data''
       = ([(''error'', PyStr (''[Errno 21] Is a directory: '' @ [squote] @ ''data'' @ [squote]))],
          sample_world)
   \<and> os_path_getsize sample_world ''data/secret.ddd'' = Inr 1
   \<and> open_rb sample_world ''data/secret.ddd'' = Inl (OSError EACCES (Some ''data/secret.ddd''))
   \<and> parse_ddd sample_world ''data/secret.ddd''
       = ([(''error'', PyStr (''[Errno 13] Permission denied: ''
                               @ [squote] @ ''data/secret.ddd'' @ [squote]))], sample_world)
   \<and> os_path_getsize sample_world ''data/broken.ddd'' = Inr 1
   \<and> open_rb sample_world ''data/broken.ddd''
       = Inr (1, sample_world\<lparr>handles := [(1, \<lparr>stream = [0x2a], fault = Some EIO, pos = 0\<rparr>)]\<rparr>)
   \<and> file_read (sample_world\<lparr>handles := [(1, \<lparr>stream = [0x2a], fault = Some EIO, pos = 0\<rparr>)]\<rparr>)
         1 16 = Inl (OSError EIO None)
   \<and> parse_ddd sample_world ''data/broken.ddd''
       = ([(''error'', PyStr ''[Errno 5] Input/output error'')], sample_world)"
proof -
  let ?w1 = "sample_world\<lparr>handles := [(1, \<lparr>stream = [0x2a], fault = Some EIO, pos = 0\<rparr>)]\<rparr>"
  have stat: "os_path_getsize sample_world ''nowhere.ddd''
      = Inl (OSError ENOENT (Some ''nowhere.ddd''))"
    by (simp add: os_path_getsize_def resolve_def world_defs)
  have missing: "lookup sample_world ''nowhere.ddd'' = Inl ENOENT"
    by (simp add: world_defs)
  have dir: "os_path_getsize sample_world ''data'' = Inr 4096
      \<and> open_rb sample_world ''data'' = Inl (OSError EISDIR (Some ''data''))"
    by (simp add: os_path_getsize_def open_rb_def resolve_def world_defs)
  have secret: "os_path_getsize sample_world ''data/secret.ddd'' = Inr 1
      \<and> open_rb sample_world ''data/secret.ddd''
          = Inl (OSError EACCES (Some ''data/secret.ddd''))"
    by (simp add: os_path_getsize_def open_rb_def resolve_def world_defs)
  have broken: "os_path_getsize sample_world ''data/broken.ddd'' = Inr 1
      \<and> open_rb sample_world ''data/broken.ddd'' = Inr (1, ?w1)
      \<and> file_read ?w1 1 16 = Inl (OSError EIO None)"
    by (simp add: os_path_getsize_def open_rb_def file_read_def resolve_def fresh_handle_def
        world_defs)
  have digits: "str_nat 2 = ''2''" "str_nat 21 = ''21''" "str_nat 13 = ''13''" "str_nat 5 = ''5''"
    by (simp_all add: str_nat.simps hexdigits_def)
  have repr: "py_repr ''nowhere.ddd'' = [squote] @ ''nowhere.ddd'' @ [squote]"
    "py_repr ''data'' = [squote] @ ''data'' @ [squote]"
    "py_repr ''data/secret.ddd'' = [squote] @ ''data/secret.ddd'' @ [squote]"
    by (simp_all add: py_repr_def repr_char_def py_printable_def squote_def dquote_def
        backslash_def Let_def)
  note claim = failures_become_error_results
  show ?thesis
    using stat missing dir secret broken
      claim [where w = sample_world and P = "''nowhere.ddd''"
          and e = "OSError ENOENT (Some ''nowhere.ddd'')"]
      claim [where w = sample_world and P = "''data''" and n = 4096
          and e = "OSError EISDIR (Some ''data'')"]
      claim [where w = sample_world and P = "''data/secret.ddd''" and n = 1
          and e = "OSError EACCES (Some ''data/secret.ddd'')"]
      claim [where w = sample_world and P = "''data/broken.ddd''" and n = 1 and f = 1
          and ?w1.0 = ?w1 and e = "OSError EIO None"]
    by (simp add: digits repr)
qed


text \<open>
  Claim C4, as the specification words it, asks a successful result to have five fields.
  The dictionary built for \<open>sample.ddd\<close> has six (\<open>title\<close>, \<open>filename\<close>, \<open>format\<close>,
  \<open>fileSize\<close>, \<open>headerHex\<close>, \<open>message\<close>): it is neither a five-field success nor a
  failure.
\<close>
theorem five_field_shape_counterexample:
  "length (fst (parse_ddd sample_world ''data/sample.ddd'')) = 6
   \<and> \<not> five_field_success (fst (parse_ddd sample_world ''data/sample.ddd''))
   \<and> \<not> failure_shaped (fst (parse_ddd sample_world ''data/sample.ddd''))"
proof -
  have "readable_file sample_world ''data/sample.ddd'' [0x00, 0x01, 0x02, 0x03]"
    and "os_path_getsize sample_world ''data/sample.ddd'' = Inr 4"
    by (simp_all add: world_defs os_path_getsize_def resolve_def)
  then show ?thesis
    by (simp add: parse_ddd_readable [of _ _ "[0x00, 0x01, 0x02, 0x03]" 4]
        five_field_success_def failure_shaped_def dict_keys_def)
qed

text \<open>
  Claim C4, amended. Every result has exactly one of two shapes: the six fields
  \<open>title\<close>, \<open>filename\<close>, \<open>format\<close>, \<open>fileSize\<close>, \<open>headerHex\<close>, \<open>message\<close> in this
  order and no \<open>error\<close> field, or the \<open>error\<close> field alone.
\<close>
theorem two_exclusive_shapes:
  "(success_shaped (fst (parse_ddd w P)) \<and> \<not> failure_shaped (fst (parse_ddd w P))
      \<and> length (fst (parse_ddd w P)) = 6 \<and> dict_get (fst (parse_ddd w P)) ''error'' = None)
   \<or> (failure_shaped (fst (parse_ddd w P)) \<and> \<not> success_shaped (fst (parse_ddd w P))
      \<and> length (fst (parse_ddd w P)) = 1)"
proof (cases w P rule: parse_ddd_try_cases)
  case (success c n)
  then show ?thesis
    by (simp add: parse_ddd_readable [of w P c n] success_shaped_def failure_shaped_def
        dict_keys_def dict_get_def)
next
  case (failure e)
  then show ?thesis
    by (simp add: parse_ddd_raised success_shaped_def failure_shaped_def dict_keys_def)
qed

text \<open>Both shapes occur.\<close>
theorem two_exclusive_shapes_witness:
  "success_shaped (fst (parse_ddd sample_world ''data/sample.ddd''))
   \<and> dict_keys (fst (parse_ddd sample_world ''data/sample.ddd''))
       = [''title'', ''filename'', ''format'', ''fileSize'', ''headerHex'', ''message'']
   \<and> failure_shaped (fst (parse_ddd sample_world ''nowhere.ddd''))
   \<and> dict_keys (fst (parse_ddd sample_world ''nowhere.ddd'')) = [''error'']"
proof -
  have "\<not> failure_shaped (fst (parse_ddd sample_world ''data/sample.ddd''))"
    by (simp add: run_defs world_defs failure_shaped_def dict_keys_def)
  moreover have "\<not> success_shaped (fst (parse_ddd sample_world ''nowhere.ddd''))"
    by (simp add: run_defs world_defs success_shaped_def dict_keys_def)
  ultimately show ?thesis
    using two_exclusive_shapes [of sample_world "''data/sample.ddd''"]
      two_exclusive_shapes [of sample_world "''nowhere.ddd''"]
    by (auto simp: success_shaped_def failure_shaped_def)
qed

text \<open>
  Claim C5. A successful result has \<open>format = "DDD"\<close>, whatever the file holds and
  whatever it is called; and two readable files with the same base name, the same size
  (as \<open>os.path.getsize\<close> reports it) and the same first 16 bytes give the same result:
  \<open>read(16)\<close> hands over at most 16 bytes, and nothing beyond them reaches the result.
\<close>
theorem format_constant_and_prefix_only:
  "(success_shaped (fst (parse_ddd w P))
      \<longrightarrow> dict_get (fst (parse_ddd w P)) ''format'' = Some (PyStr ''DDD''))
   \<and> (readable_file w1 p1 c1 \<and> readable_file w2 p2 c2
       \<and> os_path_basename p1 = os_path_basename p2
       \<and> os_path_getsize w1 p1 = os_path_getsize w2 p2 \<and> take 16 c1 = take 16 c2
      \<longrightarrow> fst (parse_ddd w1 p1) = fst (parse_ddd w2 p2))"
proof -
  have "dict_get (fst (parse_ddd w P)) ''format'' = Some (PyStr ''DDD'')"
    if "success_shaped (fst (parse_ddd w P))"
  proof -
    from that obtain c n where "readable_file w P c" and "os_path_getsize w P = Inr n"
      by (rule parse_ddd_success_readable)
    then show ?thesis
      by (simp add: parse_ddd_readable [of w P c n] dict_get_def)
  qed
  moreover have "fst (parse_ddd w1 p1) = fst (parse_ddd w2 p2)"
    if r1: "readable_file w1 p1 c1" and r2: "readable_file w2 p2 c2"
      and names: "os_path_basename p1 = os_path_basename p2"
      and sizes: "os_path_getsize w1 p1 = os_path_getsize w2 p2"
      and prefix: "take 16 c1 = take 16 c2"
  proof -
    from r1 obtain n where n1: "os_path_getsize w1 p1 = Inr n"
      by (rule readable_file_getsize)
    with sizes have n2: "os_path_getsize w2 p2 = Inr n"
      by simp
    show ?thesis
      by (simp add: parse_ddd_readable [OF r1 n1] parse_ddd_readable [OF r2 n2] names prefix)
  qed
  ultimately show ?thesis
    by blast
qed

text \<open>
  The two files \<open>long.ddd\<close> differ in their bytes 16 to 19 only, and give one result.
\<close>
theorem format_constant_and_prefix_only_witness:
  "success_shaped (fst (parse_ddd sample_world ''data/sample.ddd''))
   \<and> dict_get (fst (parse_ddd sample_world ''data/sample.ddd'')) ''format'' = Some (PyStr ''DDD'')
   \<and> readable_file sample_world ''data/long.ddd''
       [0x00, 0x01, 0x02, 0x03, 0x04, 0x05, 0x06, 0x07, 0x08, 0x09, 0x0a, 0x0b,
        0x0c, 0x0d, 0x0e, 0x0f, 0x10, 0x11, 0x12, 0x13]
   \<and> readable_file sample_world ''backup/long.ddd''
       [0x00, 0x01, 0x02, 0x03, 0x04, 0x05, 0x06, 0x07, 0x08, 0x09, 0x0a, 0x0b,
        0x0c, 0x0d, 0x0e, 0x0f, 0xff, 0xfe, 0xfd, 0xfc]
   \<and> os_path_basename ''data/long.ddd'' = os_path_basename ''backup/long.ddd''
   \<and> os_path_getsize sample_world ''data/long.ddd''
       = os_path_getsize sample_world ''backup/long.ddd''
   \<and> fst (parse_ddd sample_world ''data/long.ddd'')
       = fst (parse_ddd sample_world ''backup/long.ddd'')"
proof -
  let ?c1 = "[0x00, 0x01, 0x02, 0x03, 0x04, 0x05, 0x06, 0x07, 0x08, 0x09, 0x0a, 0x0b,
        0x0c, 0x0d, 0x0e, 0x0f, 0x10, 0x11, 0x12, 0x13] :: byte list"
  let ?c2 = "[0x00, 0x01, 0x02, 0x03, 0x04, 0x05, 0x06, 0x07, 0x08, 0x09, 0x0a, 0x0b,
        0x0c, 0x0d, 0x0e, 0x0f, 0xff, 0xfe, 0xfd, 0xfc] :: byte list"
  have shape: "success_shaped (fst (parse_ddd sample_world ''data/sample.ddd''))"
    by (simp add: run_defs world_defs success_shaped_def dict_keys_def)
  have r1: "readable_file sample_world ''data/long.ddd'' ?c1"
    by (simp add: world_defs)
  have r2: "readable_file sample_world ''backup/long.ddd'' ?c2"
    by (simp add: world_defs)
  have names: "os_path_basename ''data/long.ddd'' = os_path_basename ''backup/long.ddd''"
    by (simp add: os_path_basename_def)
  have same: "os_path_getsize sample_world ''data/long.ddd''
        = os_path_getsize sample_world ''backup/long.ddd''
      \<and> take 16 ?c1 = take 16 ?c2"
    by (simp add: world_defs os_path_getsize_def resolve_def)
  show ?thesis
    using shape r1 r2 names same
      format_constant_and_prefix_only [where w = sample_world and P = "''data/sample.ddd''"
        and ?w1.0 = sample_world and ?p1.0 = "''data/long.ddd''" and ?c1.0 = ?c1
        and ?w2.0 = sample_world and ?p2.0 = "''backup/long.ddd''" and ?c2.0 = ?c2]
    by blast
qed


lemmas json_defs = json_dumps_def json_item_def json_str_def json_escape_def str_int_def
  dquote_def backslash_def newline_def

text \<open>
  Claim C6. Run without an argument, the tool prints the one-line JSON object
  \<open>{"error": "No file provided"}\<close>, which has the failure shape, and exits with code 1.
\<close>
theorem no_argument_exit_1:
  \<open>main w [script] = ((''{"error": "No file provided"}'' @ [newline], 1), w)
   \<and> ''{"error": "No file provided"}'' = json_dumps None [(''error'', PyStr ''No file provided'')]
   \<and> failure_shaped [(''error'', PyStr ''No file provided'')]\<close>
  by (simp add: main_def json_defs failure_shaped_def dict_keys_def)

text \<open>
  Claim C7. Run with at least one argument, the tool exits with code 0 and prints the
  result of \<open>parse_ddd\<close> for the first argument, of either shape, as
  \<open>json.dumps(result, indent=2)\<close> writes it, and that text is pretty-printed JSON: the
  lines are the opening brace, one line for each member behind two spaces, and the
  closing brace; the member lines read back, one by one, as the members of the result;
  and the whole output reads back as the result.
\<close>
theorem argument_exit_0_pretty_json:
  assumes "2 \<le> length argv"
  shows "\<exists>items.
           fst (main w argv) = (join [newline] (pretty_lines 2 items) @ [newline], 0)
         \<and> map parse_member items = map (\<lambda>kv. Some (kv, [])) (fst (parse_ddd w (argv ! 1)))
         \<and> json_loads (fst (fst (main w argv))) = Some (fst (parse_ddd w (argv ! 1)))
         \<and> fst (fst (main w argv))
             = json_dumps (Some 2) (fst (parse_ddd w (argv ! 1))) @ [newline]"
proof -
  let ?result = "fst (parse_ddd w (argv ! 1))"
  have run: "fst (main w argv) = (json_dumps (Some 2) ?result @ [newline], 0)"
    using assms by (simp add: main_def Let_def split: prod.splits)
  have layout: "json_dumps (Some 2) ?result
      = join [newline] (pretty_lines 2 (map json_item ?result))"
    using json_dumps_indent [OF parse_ddd_nonempty, of 2 w "argv ! 1"]
    by (simp add: pretty_printed_def)
  have members: "map parse_member (map json_item ?result)
      = map (\<lambda>kv. Some (kv, [])) ?result"
    using parse_member_json_item [of "[]"] by simp
  have "list_all json_space [newline]"
    by (simp add: json_space_def newline_def)
  then have reads: "json_loads (json_dumps (Some 2) ?result @ [newline]) = Some ?result"
    by (rule json_loads_json_dumps)
  from run layout members reads show ?thesis
    by (intro exI [of _ "map json_item ?result"]) simp
qed

text \<open>
  The output for \<open>sample.ddd\<close>, and for the missing path \<open>it's.ddd\<close>, whose message
  shows the name between quotation marks, which the output escapes.
\<close>
theorem argument_exit_0_pretty_json_witness:
  \<open>2 \<le> length [''simple_dump.py'', ''data/sample.ddd'']
   \<and> fst (main sample_world [''simple_dump.py'', ''data/sample.ddd''])
       = (join [newline]
            [''{'',
             ''  "title": "Report from Python Parser",'',
             ''  "filename": "sample.ddd",'',
             ''  "format": "DDD",'',
             ''  "fileSize": 4,'',
             ''  "headerHex": "00010203",'',
             ''  "message": "This file was processed by the Python fallback parser."'',
             ''}''] @ [newline], 0)
   \<and> json_loads (fst (fst (main sample_world [''simple_dump.py'', ''data/sample.ddd''])))
       = Some [(''title'', PyStr ''Report from Python Parser''),
               (''filename'', PyStr ''sample.ddd''),
               (''format'', PyStr ''DDD''),
               (''fileSize'', PyInt 4),
               (''headerHex'', PyStr ''00010203''),
               (''message'', PyStr ''This file was processed by the Python fallback parser.'')]
   \<and> 2 \<le> length [''simple_dump.py'', ''it'' @ [squote] @ ''s.ddd'', ''--verbose'']
   \<and> fst (main sample_world [''simple_dump.py'', ''it'' @ [squote] @ ''s.ddd'', ''--verbose''])
       = (join [newline]
            [''{'',
             ''  "error": "[Errno 2] No such file or directory: '' @ [backslash, dquote]
                @ ''it'' @ [squote] @ ''s.ddd'' @ [backslash, dquote] @ ''"'',
             ''}''] @ [newline], 0)
   \<and> json_loads
         (fst (fst (main sample_world
            [''simple_dump.py'', ''it'' @ [squote] @ ''s.ddd'', ''--verbose''])))
       = Some [(''error'', PyStr (''[Errno 2] No such file or directory: '' @ [dquote]
                                  @ ''it'' @ [squote] @ ''s.ddd'' @ [dquote]))]\<close>
proof -
  let ?run1 = "[''simple_dump.py'', ''data/sample.ddd'']"
  let ?run2 = "[''simple_dump.py'', ''it'' @ [squote] @ ''s.ddd'', ''--verbose'']"
  let ?result1 = "[(''title'', PyStr ''Report from Python Parser''),
         (''filename'', PyStr ''sample.ddd''),
         (''format'', PyStr ''DDD''),
         (''fileSize'', PyInt 4),
         (''headerHex'', PyStr ''00010203''),
         (''message'', PyStr ''This file was processed by the Python fallback parser.'')]"
  let ?result2 = "[(''error'', PyStr (''[Errno 2] No such file or directory: '' @ [dquote]
                                  @ ''it'' @ [squote] @ ''s.ddd'' @ [dquote]))]"
  have given1: "2 \<le> length ?run1" and first1: "?run1 ! 1 = ''data/sample.ddd''"
    by simp_all
  have given2: "2 \<le> length ?run2" and first2: "?run2 ! 1 = ''it'' @ [squote] @ ''s.ddd''"
    by simp_all
  have sample: "fst (parse_ddd sample_world ''data/sample.ddd'') = ?result1"
    by (simp add: run_defs world_defs hex_defs)
  have missing: "fst (parse_ddd sample_world (''it'' @ [squote] @ ''s.ddd'')) = ?result2"
    by (simp add: run_defs world_defs str_nat.simps hexdigits_def py_repr_def repr_char_def
        py_printable_def squote_def dquote_def backslash_def)
  have four: "str_nat 4 = ''4''"
    by (simp add: str_nat.simps hexdigits_def)
  have written1: \<open>json_dumps (Some 2) ?result1 @ [newline]
      = join [newline]
            [''{'',
             ''  "title": "Report from Python Parser",'',
             ''  "filename": "sample.ddd",'',
             ''  "format": "DDD",'',
             ''  "fileSize": 4,'',
             ''  "headerHex": "00010203",'',
             ''  "message": "This file was processed by the Python fallback parser."'',
             ''}''] @ [newline]\<close>
    by (simp add: json_dumps_def json_item_def json_str_def json_escape_def str_int_def
        dquote_def backslash_def four numeral_2_eq_2)
  have written2: \<open>json_dumps (Some 2) ?result2 @ [newline]
      = join [newline]
            [''{'',
             ''  "error": "[Errno 2] No such file or directory: '' @ [backslash, dquote]
                @ ''it'' @ [squote] @ ''s.ddd'' @ [backslash, dquote] @ ''"'',
             ''}''] @ [newline]\<close>
    by (simp add: json_dumps_def json_item_def json_str_def json_escape_def
        dquote_def backslash_def squote_def numeral_2_eq_2)
  note claim1 = argument_exit_0_pretty_json [OF given1, of sample_world]
  note claim2 = argument_exit_0_pretty_json [OF given2, of sample_world]
  from claim1 have code1: "snd (fst (main sample_world ?run1)) = 0"
    and out1: "fst (fst (main sample_world ?run1))
        = json_dumps (Some 2) (fst (parse_ddd sample_world (?run1 ! 1))) @ [newline]"
    and reads1: "json_loads (fst (fst (main sample_world ?run1)))
        = Some (fst (parse_ddd sample_world (?run1 ! 1)))"
    by auto
  from claim2 have code2: "snd (fst (main sample_world ?run2)) = 0"
    and out2: "fst (fst (main sample_world ?run2))
        = json_dumps (Some 2) (fst (parse_ddd sample_world (?run2 ! 1))) @ [newline]"
    and reads2: "json_loads (fst (fst (main sample_world ?run2)))
        = Some (fst (parse_ddd sample_world (?run2 ! 1)))"
    by auto
  have run1: "fst (main sample_world ?run1) = (json_dumps (Some 2) ?result1 @ [newline], 0)"
    using code1 out1 unfolding first1 sample by (intro prod_eqI) simp_all
  have run2: "fst (main sample_world ?run2) = (json_dumps (Some 2) ?result2 @ [newline], 0)"
    using code2 out2 unfolding first2 missing by (intro prod_eqI) simp_all
  have back1: "json_loads (fst (fst (main sample_world ?run1))) = Some ?result1"
    using reads1 unfolding first1 sample .
  have back2: "json_loads (fst (fst (main sample_world ?run2))) = Some ?result2"
    using reads2 unfolding first2 missing .
  from given1 run1 [unfolded written1] back1 given2 run2 [unfolded written2] back2
  show ?thesis
    by (intro conjI)
qed

text \<open>
  Claim C8. \<open>parse_ddd\<close> leaves the world as it found it (no file object stays open),
  so a second call on the same file gives the same result, and so does a second run of
  the tool; and the result depends on the world only through what the path resolves
  to: other files and open file objects do not matter.
\<close>
theorem inspect_stateless_deterministic:
  "snd (parse_ddd w P) = w
   \<and> fst (parse_ddd (snd (parse_ddd w P)) P) = fst (parse_ddd w P)
   \<and> main (snd (main w argv)) argv = main w argv
   \<and> (lookup w P = lookup w' P \<longrightarrow> fst (parse_ddd w P) = fst (parse_ddd w' P))"
  using parse_ddd_lookup [of w P w']
  by (simp add: parse_ddd_world main_world)

text \<open>
  The sample world and a world with another file removed and a file object open: the
  path resolves alike in both, and the results agree.
\<close>
theorem inspect_stateless_deterministic_witness:
  "lookup sample_world ''data/sample.ddd'' = lookup busy_world ''data/sample.ddd''
   \<and> sample_world \<noteq> busy_world
   \<and> fst (parse_ddd sample_world ''data/sample.ddd'')
       = fst (parse_ddd busy_world ''data/sample.ddd'')
   \<and> snd (parse_ddd busy_world ''data/sample.ddd'') = busy_world"
proof -
  have same: "lookup sample_world ''data/sample.ddd'' = lookup busy_world ''data/sample.ddd''"
    by (simp add: world_defs)
  have "handles sample_world \<noteq> handles busy_world"
    by (simp add: world_defs)
  then have differ: "sample_world \<noteq> busy_world"
    by auto
  note first = inspect_stateless_deterministic
    [where w = sample_world and P = "''data/sample.ddd''" and w' = busy_world and argv = "[]"]
  note second = inspect_stateless_deterministic
    [where w = busy_world and P = "''data/sample.ddd''" and w' = busy_world and argv = "[]"]
  from first same
  have agree: "fst (parse_ddd sample_world ''data/sample.ddd'')
      = fst (parse_ddd busy_world ''data/sample.ddd'')"
    by blast
  from second have restored: "snd (parse_ddd busy_world ''data/sample.ddd'') = busy_world"
    by blast
  from same differ agree restored show ?thesis
    by blast
qed

text \<open>
  Claim C9. Every successful result has the title \<open>Report from Python Parser\<close> and the
  message \<open>This file was processed by the Python fallback parser.\<close>, whatever the file.
\<close>
theorem title_and_message_constant:
  assumes "success_shaped (fst (parse_ddd w P))"
  shows "dict_get (fst (parse_ddd w P)) ''title'' = Some (PyStr ''Report from Python Parser'')
       \<and> dict_get (fst (parse_ddd w P)) ''message''
           = Some (PyStr ''This file was processed by the Python fallback parser.'')"
proof -
  from assms obtain c n where "readable_file w P c" and "os_path_getsize w P = Inr n"
    by (rule parse_ddd_success_readable)
  then show ?thesis
    by (simp add: parse_ddd_readable [of w P c n] dict_get_def)
qed

text \<open>The empty file is inspected successfully and carries both texts.\<close>
theorem title_and_message_constant_witness:
  "success_shaped (fst (parse_ddd sample_world ''data/empty.ddd''))
   \<and> dict_get (fst (parse_ddd sample_world ''data/empty.ddd'')) ''title''
       = Some (PyStr ''Report from Python Parser'')
   \<and> dict_get (fst (parse_ddd sample_world ''data/empty.ddd'')) ''message''
       = Some (PyStr ''This file was processed by the Python fallback parser.'')"
proof -
  have shape: "success_shaped (fst (parse_ddd sample_world ''data/empty.ddd''))"
    by (simp add: run_defs world_defs success_shaped_def dict_keys_def)
  show ?thesis
    using shape title_and_message_constant [OF shape] by simp
qed

text \<open>
  Claim C10. Only \<open>sys.argv[1]\<close> is read: the arguments after the first (and the name
  of the script) change neither the output nor the exit code.
\<close>
theorem later_arguments_ignored:
  "main w (script # a # rest) = main w [script, a]
   \<and> main w (script # a # rest) = main w (script' # a # rest')"
  by (simp add: main_def)

end
